theory Spec2Isabelle
  imports Main "HOL-Library.Word"
begin

section \<open>JSON values as Python sees them\<close>

text \<open>
  Both programs exchange text frames and read them with \<^verbatim>\<open>json.loads\<close>. The model starts
  after that call: a frame is either text that \<^verbatim>\<open>json.loads\<close> rejects (\<open>BadJson\<close>) or the
  Python value it returns. A Python \<^verbatim>\<open>dict\<close> keeps insertion order, so an object is an
  association list; \<^verbatim>\<open>None\<close> is \<open>JNull\<close>. Floating-point numbers are left out.
\<close>

datatype json =
    JNull
  | JBool bool
  | JInt int
  | JStr string
  | JArr "json list"
  | JObj "(string \<times> json) list"

datatype frame = BadJson | Parsed json

text \<open>\<^verbatim>\<open>d.get(k)\<close>: the value stored under \<open>k\<close>, \<^verbatim>\<open>None\<close> when the key is missing.\<close>

definition dict_get :: "(string \<times> json) list \<Rightarrow> string \<Rightarrow> json" where
  "dict_get d k = (case map_of d k of None \<Rightarrow> JNull | Some v \<Rightarrow> v)"

text \<open>\<^verbatim>\<open>d[k] = v\<close>: an existing key keeps its position, a new key goes to the end.\<close>

fun dict_set :: "string \<Rightarrow> json \<Rightarrow> (string \<times> json) list \<Rightarrow> (string \<times> json) list" where
  "dict_set k v [] = [(k, v)]"
| "dict_set k v (kv # d) = (if fst kv = k then (k, v) # d else kv # dict_set k v d)"

text \<open>Truth value of a Python object in a condition (\<^verbatim>\<open>if x\<close>, \<^verbatim>\<open>not x\<close>, \<^verbatim>\<open>x and y\<close>).\<close>

fun py_truthy :: "json \<Rightarrow> bool" where
  "py_truthy JNull = False"
| "py_truthy (JBool b) = b"
| "py_truthy (JInt n) = (n \<noteq> 0)"
| "py_truthy (JStr s) = (s \<noteq> [])"
| "py_truthy (JArr xs) = (xs \<noteq> [])"
| "py_truthy (JObj kvs) = (kvs \<noteq> [])"

text \<open>
  A \<^verbatim>\<open>list\<close> or a \<^verbatim>\<open>dict\<close> cannot be hashed: using one as a dictionary key, also in
  \<^verbatim>\<open>x in d\<close> and \<^verbatim>\<open>d.get(x)\<close>, raises \<^verbatim>\<open>TypeError\<close>.
\<close>

fun py_hashable :: "json \<Rightarrow> bool" where
  "py_hashable (JArr xs) = False"
| "py_hashable (JObj kvs) = False"
| "py_hashable v = True"

text \<open>Decimal digits of a Python \<^verbatim>\<open>int\<close>, as \<^verbatim>\<open>str\<close> and f-strings print it.\<close>

function show_nat :: "nat \<Rightarrow> string" where
  "show_nat n =
     (if n < 10 then [char_of (48 + n)]
      else show_nat (n div 10) @ [char_of (48 + n mod 10)])"
  by pat_completeness auto
termination
  by (relation "measure id") auto

definition show_int :: "int \<Rightarrow> string" where
  "show_int i = (if i < 0 then CHR ''-'' # show_nat (nat (- i)) else show_nat (nat i))"

text \<open>
  What an f-string prints for a value. The server formats only the \<open>target\<close> that reached
  the \<^verbatim>\<open>else\<close> branch of its routing test, and a non-empty list or dict never gets there
  (the membership test raises first), so containers are printed as the empty ones.
\<close>

fun py_str :: "json \<Rightarrow> string" where
  "py_str JNull = ''None''"
| "py_str (JBool b) = (if b then ''True'' else ''False'')"
| "py_str (JInt n) = show_int n"
| "py_str (JStr s) = s"
| "py_str (JArr xs) = ''[]''"
| "py_str (JObj kvs) = ''{}''"

section \<open>The relay server (src/server/main.py)\<close>

text \<open>
  A websocket connection is known by a number. \<open>connected_clients\<close> is the module's
  dictionary of that name. \<open>alive\<close> holds the connections whose transport is open:
  \<^verbatim>\<open>send\<close> on any other raises \<^verbatim>\<open>ConnectionClosed\<close>. \<open>outbox\<close> lists every frame the server
  sent, in order, with the connection it went to (the value given to \<^verbatim>\<open>json.dumps\<close>), and
  \<open>closed_with\<close> every \<^verbatim>\<open>websocket.close(code, reason)\<close>. Each run of the coroutine
  \<^verbatim>\<open>handler\<close> that has reached its message loop is an entry of \<open>handlers\<close>: the connection
  and the value of its local variable \<^verbatim>\<open>client_id\<close>. \<open>log\<close> records which logger call ran.
\<close>

type_synonym ws = nat

datatype log_event =
    InvalidTokenAttempt | TokenNameMismatch | ClientConnected | RelayedMessage
  | UnknownTarget | InvalidJSON | ErrorProcessing | AuthTimeout | ConnectionClosedInfo
  | UnexpectedError | ClientDisconnected

record server =
  connected_clients :: "string \<rightharpoonup> ws"
  alive :: "ws set"
  outbox :: "(ws \<times> json) list"
  closed_with :: "(ws \<times> nat \<times> string) list"
  handlers :: "ws \<rightharpoonup> string"
  log :: "log_event list"

definition server_init :: server where
  "server_init = \<lparr>connected_clients = Map.empty, alive = {}, outbox = [],
     closed_with = [], handlers = Map.empty, log = []\<rparr>"

definition logged :: "log_event \<Rightarrow> server \<Rightarrow> server" where
  "logged e st = st\<lparr>log := log st @ [e]\<rparr>"

text \<open>\<^verbatim>\<open>await w.send(json.dumps(m))\<close>; \<open>None\<close> is the exception \<^verbatim>\<open>ConnectionClosed\<close>.\<close>

definition ws_send :: "ws \<Rightarrow> json \<Rightarrow> server \<Rightarrow> server option" where
  "ws_send w m st = (if w \<in> alive st then Some (st\<lparr>outbox := outbox st @ [(w, m)]\<rparr>) else None)"

definition ws_close :: "ws \<Rightarrow> nat \<Rightarrow> string \<Rightarrow> server \<Rightarrow> server" where
  "ws_close w code reason st =
     st\<lparr>alive := alive st - {w}, closed_with := closed_with st @ [(w, code, reason)]\<rparr>"

text \<open>The \<^verbatim>\<open>finally\<close> block of \<^verbatim>\<open>handler\<close> (lines 145-148), for a handler whose \<^verbatim>\<open>client_id\<close> is set.\<close>

definition handler_finally :: "string \<Rightarrow> server \<Rightarrow> server" where
  "handler_finally client_id st =
     (if client_id \<noteq> [] \<and> connected_clients st client_id \<noteq> None
      then logged ClientDisconnected (st\<lparr>connected_clients := (connected_clients st)(client_id := None)\<rparr>)
      else st)"

text \<open>
  What the first \<^verbatim>\<open>recv\<close> of a handler gives: nothing within 10 seconds, a closed
  connection, or a text frame.
\<close>

datatype recv = RecvTimeout | RecvClosed | RecvText frame

text \<open>
  \<^verbatim>\<open>config['clients'].get(token)\<close>. The configured map sends token strings to name strings; a
  token that is not a string is never a key.
\<close>

fun clients_get :: "(string \<rightharpoonup> string) \<Rightarrow> json \<Rightarrow> string option" where
  "clients_get clients (JStr t) = clients t"
| "clients_get clients v = None"

text \<open>
  The authentication handshake (lines 93-113). Every way out before \<^verbatim>\<open>client_id = name\<close>
  leaves \<^verbatim>\<open>client_id\<close> at \<^verbatim>\<open>None\<close>, so the \<^verbatim>\<open>finally\<close> block does nothing there.
\<close>

definition handler_auth :: "(string \<rightharpoonup> string) \<Rightarrow> ws \<Rightarrow> recv \<Rightarrow> server \<Rightarrow> server" where
  "handler_auth clients w r st =
     (case r of
        RecvTimeout \<Rightarrow> logged AuthTimeout st
      | RecvClosed \<Rightarrow> logged ConnectionClosedInfo st
      | RecvText BadJson \<Rightarrow> logged UnexpectedError st
      | RecvText (Parsed (JObj auth_data)) \<Rightarrow>
          (let token = dict_get auth_data ''token'';
               name = dict_get auth_data ''name''
           in if \<not> py_hashable token then logged UnexpectedError st
              else
                (case clients_get clients token of
                   None \<Rightarrow> ws_close w 4001 ''Invalid token'' (logged InvalidTokenAttempt st)
                 | Some expected_name \<Rightarrow>
                     if expected_name = [] then
                       ws_close w 4001 ''Invalid token'' (logged InvalidTokenAttempt st)
                     else if JStr expected_name \<noteq> name then
                       ws_close w 4002 ''Name mismatch'' (logged TokenNameMismatch st)
                     else
                       (let client_id = expected_name;
                            st1 = logged ClientConnected
                                    (st\<lparr>connected_clients := (connected_clients st)(client_id \<mapsto> w)\<rparr>)
                        in case ws_send w (JObj [(''status'', JStr ''authenticated'')]) st1 of
                             Some st2 \<Rightarrow> st2\<lparr>handlers := (handlers st2)(w \<mapsto> client_id)\<rparr>
                           | None \<Rightarrow> handler_finally client_id (logged ConnectionClosedInfo st1))))
      | RecvText (Parsed other) \<Rightarrow> logged UnexpectedError st)"

text \<open>\<^verbatim>\<open>target in connected_clients\<close> for a hashable \<open>target\<close>, with the connection found.\<close>

fun registered :: "(string \<rightharpoonup> ws) \<Rightarrow> json \<Rightarrow> ws option" where
  "registered cc (JStr t) = cc t"
| "registered cc v = None"

definition error_msg :: "json \<Rightarrow> json" where
  "error_msg target =
     JObj [(''type'', JStr ''error''),
           (''message'', JStr (''Target '' @ py_str target @ '' not found''))]"

text \<open>
  One turn of the message loop (lines 115-137) of the handler of connection \<open>w\<close>. The test
  \<^verbatim>\<open>target and target in connected_clients\<close> stops at a falsy \<open>target\<close>; otherwise the
  membership test hashes it. Every exception is caught inside the loop and logged.
\<close>

definition handler_message :: "string \<Rightarrow> ws \<Rightarrow> frame \<Rightarrow> server \<Rightarrow> server" where
  "handler_message client_id w f st =
     (case f of
        BadJson \<Rightarrow> logged InvalidJSON st
      | Parsed (JObj data) \<Rightarrow>
          (let target = dict_get data ''target'' in
           if py_truthy target \<and> \<not> py_hashable target then logged ErrorProcessing st
           else
             (case (if py_truthy target then registered (connected_clients st) target else None) of
                Some target_ws \<Rightarrow>
                  (case ws_send target_ws (JObj (dict_set ''sender'' (JStr client_id) data)) st of
                     Some st' \<Rightarrow> logged RelayedMessage st'
                   | None \<Rightarrow> logged ErrorProcessing st)
              | None \<Rightarrow>
                  (case ws_send w (error_msg target) st of
                     Some st' \<Rightarrow> logged UnknownTarget st'
                   | None \<Rightarrow> logged ErrorProcessing st)))
      | Parsed other \<Rightarrow> logged ErrorProcessing st)"

text \<open>
  The server as a whole: handlers of different connections take turns, each turn one of
  these events. \<open>Opened\<close> and \<open>Broken\<close> are the transport coming up and failing;
  \<open>Accept\<close> is a handler's handshake on the first frame; \<open>Receive\<close> one frame in its
  message loop; \<open>Closed\<close> the end of the loop (cleanly, or with \<^verbatim>\<open>ConnectionClosed\<close>
  raised) followed by the \<^verbatim>\<open>finally\<close> block.
\<close>

datatype event =
    Opened ws
  | Broken ws
  | Accept ws recv
  | Receive ws frame
  | Closed ws bool

fun server_step :: "(string \<rightharpoonup> string) \<Rightarrow> event \<Rightarrow> server \<Rightarrow> server" where
  "server_step clients (Opened w) st = st\<lparr>alive := insert w (alive st)\<rparr>"
| "server_step clients (Broken w) st = st\<lparr>alive := alive st - {w}\<rparr>"
| "server_step clients (Accept w r) st = handler_auth clients w r st"
| "server_step clients (Receive w f) st =
     (case handlers st w of
        None \<Rightarrow> st
      | Some client_id \<Rightarrow> handler_message client_id w f st)"
| "server_step clients (Closed w clean) st =
     (case handlers st w of
        None \<Rightarrow> st
      | Some client_id \<Rightarrow>
          handler_finally client_id
            ((if clean then id else logged ConnectionClosedInfo)
               (st\<lparr>alive := alive st - {w}, handlers := (handlers st)(w := None)\<rparr>)))"

definition server_run :: "(string \<rightharpoonup> string) \<Rightarrow> event list \<Rightarrow> server" where
  "server_run clients evs = foldl (\<lambda>st ev. server_step clients ev st) server_init evs"

text \<open>
  What holds in every state the server reaches: the empty string is never a registered
  name, and the \<^verbatim>\<open>client_id\<close> of a handler in its message loop is a non-empty name that
  the configuration binds to some token.
\<close>

definition names_ok :: "(string \<rightharpoonup> string) \<Rightarrow> server \<Rightarrow> bool" where
  "names_ok clients st \<longleftrightarrow>
     connected_clients st [] = None \<and>
     (\<forall>w n. handlers st w = Some n \<longrightarrow> n \<noteq> [] \<and> (\<exists>tok. clients tok = Some n))"

text \<open>The configuration and the first frames of the end-to-end scenario of the specification.\<close>

definition two_clients :: "string \<rightharpoonup> string" where
  "two_clients = [''T1'' \<mapsto> ''alice'', ''T2'' \<mapsto> ''bob'']"

definition alice_auth :: "(string \<times> json) list" where
  "alice_auth = [(''token'', JStr ''T1''), (''name'', JStr ''alice'')]"

definition bob_auth :: "(string \<times> json) list" where
  "bob_auth = [(''token'', JStr ''T2''), (''name'', JStr ''bob'')]"

definition alice_only :: server where
  "alice_only = server_run two_clients [Opened 1, Accept 1 (RecvText (Parsed (JObj alice_auth)))]"

definition alice_bob_events :: "event list" where
  "alice_bob_events =
     [Opened 1, Opened 2, Accept 1 (RecvText (Parsed (JObj alice_auth))),
      Accept 2 (RecvText (Parsed (JObj bob_auth)))]"

definition deadbeef_envelope :: "(string \<times> json) list" where
  "deadbeef_envelope =
     [(''target'', JStr ''bob''), (''type'', JStr ''packet''), (''mode'', JStr ''request''),
      (''payload'', JStr ''deadbeef'')]"

definition alice_waiting :: server where
  "alice_waiting =
     server_run two_clients
       [Opened 1, Opened 2, Opened 3, Accept 1 (RecvText (Parsed (JObj alice_auth)))]"

section \<open>The capture loop of the client (src/client/network_manager.py, run_windivert)\<close>

text \<open>
  A captured packet as the driver binding presents it: the parsed header fields the loop
  reads, the payload (\<^verbatim>\<open>None\<close> when the packet has none) and the raw bytes.
  \<^verbatim>\<open>packet.udp\<close> is set exactly for a UDP packet; ports are \<^verbatim>\<open>None\<close> for a packet that is
  neither TCP nor UDP.
\<close>

type_synonym byte = "8 word"

datatype proto = TCP | UDP | OtherProto

record packet =
  proto :: proto
  src_addr :: string
  src_port :: "nat option"
  dst_addr :: string
  dst_port :: "nat option"
  payload :: "byte list option"
  raw :: "byte list"

text \<open>
  A Python \<^verbatim>\<open>str\<close> is held as the bytes of its UTF-8 form, so \<open>encode\<close> keeps every
  byte. A lone surrogate, which \<^verbatim>\<open>json.loads\<close> accepts from an escape such as
  \<^verbatim>\<open>"\ud800"\<close>, has no UTF-8 form: it is held in the generalised form, the byte 0xED
  followed by a byte from 0xA0 to 0xBF and one more, and \<^verbatim>\<open>str.encode\<close> raises
  \<^verbatim>\<open>UnicodeEncodeError\<close> on a string that holds one.
\<close>

definition encode :: "string \<Rightarrow> byte list" where
  "encode kw = map (\<lambda>c. word_of_nat (of_char c)) kw"

fun has_surrogate :: "string \<Rightarrow> bool" where
  "has_surrogate (c # d # cs) =
     (((of_char c :: nat) = 237 \<and> 160 \<le> (of_char d :: nat) \<and> (of_char d :: nat) \<le> 191)
      \<or> has_surrogate (d # cs))"
| "has_surrogate cs = False"

text \<open>
  \<^verbatim>\<open>kw.encode()\<close> for an entry of the configured keyword list, which is whatever the
  configuration file holds there: a value that is not a string has no method
  \<^verbatim>\<open>encode\<close> (\<^verbatim>\<open>AttributeError\<close>), and a string with a lone surrogate cannot be encoded.
  \<open>None\<close> is the exception.
\<close>

fun py_encode :: "json \<Rightarrow> byte list option" where
  "py_encode (JStr s) = (if has_surrogate s then None else Some (encode s))"
| "py_encode v = None"

text \<open>\<^verbatim>\<open>needle in haystack\<close> on \<^verbatim>\<open>bytes\<close>: the needle occurs as a contiguous run.\<close>

fun starts_with :: "byte list \<Rightarrow> byte list \<Rightarrow> bool" where
  "starts_with [] ys = True"
| "starts_with (x # xs) [] = False"
| "starts_with (x # xs) (y # ys) = (x = y \<and> starts_with xs ys)"

fun bytes_contains :: "byte list \<Rightarrow> byte list \<Rightarrow> bool" where
  "bytes_contains needle [] = (needle = [])"
| "bytes_contains needle (y # ys) = (starts_with needle (y # ys) \<or> bytes_contains needle ys)"

text \<open>\<^verbatim>\<open>bytes.hex()\<close>: two lower-case hexadecimal digits for each byte.\<close>

definition hex_digit :: "nat \<Rightarrow> char" where
  "hex_digit n = (if n < 10 then char_of (48 + n) else char_of (87 + n))"

definition bytes_hex :: "byte list \<Rightarrow> string" where
  "bytes_hex bs = concat (map (\<lambda>b. [hex_digit (unat b div 16), hex_digit (unat b mod 16)]) bs)"

text \<open>
  One rule of the client configuration (an entry of \<open>filters\<close>). \<open>domain_keywords\<close> is
  the empty list when the key is missing, as \<^verbatim>\<open>.get('domain_keywords', [])\<close> reads it, and
  \<open>domain_keyword\<close> is \<open>JNull\<close> when that key is missing; the entries are the values
  of the configuration file, strings or not.
\<close>

record diversion_rule =
  windivert_filter :: string
  target_client :: string
  domain_keywords :: "json list"
  domain_keyword :: json

text \<open>Lines 160-162: the list of keywords, with the single \<open>domain_keyword\<close> appended when it is truthy.\<close>

definition rule_keywords :: "diversion_rule \<Rightarrow> json list" where
  "rule_keywords r =
     domain_keywords r @ (if py_truthy (domain_keyword r) then [domain_keyword r] else [])"

text \<open>The two sets the loop keeps (lines 166-169), both empty when it starts.\<close>

type_synonym flow = "string \<times> nat option \<times> string \<times> nat option"

record diversion =
  diverted_flows :: "flow set"
  diverted_ips :: "string set"

definition diversion_init :: diversion where
  "diversion_init = \<lparr>diverted_flows = {}, diverted_ips = {}\<rparr>"

definition flow_id :: "packet \<Rightarrow> flow" where
  "flow_id p = (src_addr p, src_port p, dst_addr p, dst_port p)"

text \<open>
  What the loop does with a packet: \<open>Drop\<close> is the \<^verbatim>\<open>continue\<close> of line 183 (the packet is
  neither sent on nor re-injected), \<open>Divert\<close> is \<^verbatim>\<open>should_divert = True\<close>, \<open>Pass\<close> is
  \<^verbatim>\<open>should_divert = False\<close>.
\<close>

datatype decision = Pass | Drop | Divert

text \<open>
  The keyword loop (lines 200-206) inside its \<^verbatim>\<open>try\<close> (lines 195-208): the keywords are
  tried in order; the first whose bytes occur in the payload ends the loop with a match;
  an entry whose \<^verbatim>\<open>encode\<close> raises ends it with the exception, which
  \<^verbatim>\<open>except Exception: pass\<close> swallows.
\<close>

datatype kw_result = Found json | NotFound | Raised

fun keyword_loop :: "json list \<Rightarrow> byte list \<Rightarrow> kw_result" where
  "keyword_loop [] bytes = NotFound"
| "keyword_loop (kw # kws) bytes =
     (case py_encode kw of
        None \<Rightarrow> Raised
      | Some needle \<Rightarrow>
          if bytes_contains needle bytes then Found kw else keyword_loop kws bytes)"

text \<open>
  Lines 178-211 for one packet. \<^verbatim>\<open>if packet.payload\<close> skips a missing and an empty
  payload; after an exception in the keyword loop \<^verbatim>\<open>should_divert\<close> is still false and
  the sets are as they were, as when no keyword is found.
\<close>

definition classify :: "json list \<Rightarrow> diversion \<Rightarrow> packet \<Rightarrow> decision \<times> diversion" where
  "classify kws st p =
     (if proto p = UDP \<and> dst_port p = Some 443 then (Drop, st)
      else if kws \<noteq> [] then
        (if flow_id p \<in> diverted_flows st \<or> dst_addr p \<in> diverted_ips st then (Divert, st)
         else
           (case payload p of
              None \<Rightarrow> (Pass, st)
            | Some bytes \<Rightarrow>
                if bytes = [] then (Pass, st)
                else
                  (case keyword_loop kws bytes of
                     Found kw \<Rightarrow>
                       (Divert,
                        st\<lparr>diverted_flows := insert (flow_id p) (diverted_flows st),
                           diverted_ips := insert (dst_addr p) (diverted_ips st)\<rparr>)
                   | NotFound \<Rightarrow> (Pass, st)
                   | Raised \<Rightarrow> (Pass, st))))
      else (Divert, st))"

text \<open>
  Lines 213-230. A diverted packet is queued for the relay as an envelope when the event
  loop and its queue exist, and only logged otherwise; a passed packet is re-injected.
\<close>

datatype wd_action = Queued json | NotReady | Reinjected packet

definition envelope :: "string \<Rightarrow> packet \<Rightarrow> json" where
  "envelope target p =
     JObj [(''target'', JStr target), (''type'', JStr ''packet''), (''mode'', JStr ''request''),
           (''payload'', JStr (bytes_hex (raw p)))]"

fun dispose :: "string \<Rightarrow> bool \<Rightarrow> packet \<Rightarrow> decision \<Rightarrow> wd_action list" where
  "dispose target ready p Drop = []"
| "dispose target ready p Divert = (if ready then [Queued (envelope target p)] else [NotReady])"
| "dispose target ready p Pass = [Reinjected p]"

text \<open>
  One packet read from the driver, with what the loop reads besides it: the flag
  \<^verbatim>\<open>self.running\<close> at that moment, and whether \<^verbatim>\<open>self.loop\<close> and \<^verbatim>\<open>self.packet_queue\<close> exist.
\<close>

record capture =
  cap_running :: bool
  cap_ready :: bool
  cap_packet :: packet

text \<open>
  The loop (lines 174-230) over the packets the driver yields: for each, the decision and
  what was done; at the end, the two sets. The loop ends at the first packet read while
  \<^verbatim>\<open>self.running\<close> is false.
\<close>

fun capture_loop ::
  "json list \<Rightarrow> string \<Rightarrow> diversion \<Rightarrow> capture list \<Rightarrow> (decision \<times> wd_action list) list \<times> diversion"
where
  "capture_loop kws target st [] = ([], st)"
| "capture_loop kws target st (c # cs) =
     (if \<not> cap_running c then ([], st)
      else
        (case classify kws st (cap_packet c) of
           (d, st') \<Rightarrow>
             (case capture_loop kws target st' cs of
                (trace, st'') \<Rightarrow>
                  ((d, dispose target (cap_ready c) (cap_packet c) d) # trace, st''))))"

text \<open>
  \<^verbatim>\<open>run_windivert\<close>: nothing without rules; otherwise the filter, the target and the
  keywords of \<^verbatim>\<open>filters[0]\<close>. \<open>driver_ok\<close> says whether the driver handle opens.
\<close>

datatype wd_result =
    NoFilters
  | OpenFailed string
  | Captured string "(decision \<times> wd_action list) list"

definition run_windivert :: "diversion_rule list \<Rightarrow> bool \<Rightarrow> capture list \<Rightarrow> wd_result" where
  "run_windivert filters driver_ok caps =
     (case filters of
        [] \<Rightarrow> NoFilters
      | r # others \<Rightarrow>
          if driver_ok
          then Captured (windivert_filter r)
                 (fst (capture_loop (rule_keywords r) (target_client r) diversion_init caps))
          else OpenFailed (windivert_filter r))"

text \<open>
  A packet the loop drops before anything else: UDP to port 443 (lines 180-183).
\<close>

definition quic :: "packet \<Rightarrow> bool" where
  "quic p \<longleftrightarrow> proto p = UDP \<and> dst_port p = Some 443"

text \<open>
  The two sets are filled together, so the destination of every marked flow is a marked
  address.
\<close>

definition flows_inv :: "diversion \<Rightarrow> bool" where
  "flows_inv st \<longleftrightarrow> (\<forall>f \<in> diverted_flows st. fst (snd (snd f)) \<in> diverted_ips st)"

text \<open>Packets and rules for the examples: two TLS connections and a QUIC packet to one server.\<close>

definition tls_hello :: packet where
  "tls_hello = \<lparr>proto = TCP, src_addr = ''10.0.0.2'', src_port = Some 50000,
     dst_addr = ''93.184.216.34'', dst_port = Some 443,
     payload = Some (encode ''sni=example.com''), raw = encode ''sni=example.com''\<rparr>"

definition tls_hello_2 :: packet where
  "tls_hello_2 = tls_hello\<lparr>src_port := Some 50001\<rparr>"

definition tls_data :: packet where
  "tls_data = tls_hello\<lparr>payload := Some (encode ''data''), raw := encode ''data''\<rparr>"

definition quic_initial :: packet where
  "quic_initial = \<lparr>proto = UDP, src_addr = ''10.0.0.2'', src_port = Some 50002,
     dst_addr = ''93.184.216.34'', dst_port = Some 443,
     payload = Some (encode ''quic''), raw = encode ''quic''\<rparr>"

definition cap :: "packet \<Rightarrow> capture" where
  "cap p = \<lparr>cap_running = True, cap_ready = True, cap_packet = p\<rparr>"

definition rule_a :: diversion_rule where
  "rule_a = \<lparr>windivert_filter = ''outbound and tcp.DstPort == 443'', target_client = ''executor'',
     domain_keywords = [JStr ''intranet''], domain_keyword = JStr ''example''\<rparr>"

definition rule_b :: diversion_rule where
  "rule_b = \<lparr>windivert_filter = ''outbound and tcp.DstPort == 80'', target_client = ''other'',
     domain_keywords = [JStr ''data''], domain_keyword = JNull\<rparr>"

text \<open>
  Two more runs of the server: after \<open>bob\<close>'s transport has failed and before his handler
  has noticed; and after a second connection has authenticated as \<open>bob\<close> and the first
  one has gone.
\<close>

definition stale_bob_events :: "event list" where
  "stale_bob_events = alice_bob_events @ [Broken 2]"

definition replaced_bob_events :: "event list" where
  "replaced_bob_events =
     [Opened 1, Opened 2, Opened 3, Accept 1 (RecvText (Parsed (JObj alice_auth))),
      Accept 2 (RecvText (Parsed (JObj bob_auth))), Accept 3 (RecvText (Parsed (JObj bob_auth))),
      Closed 2 True]"

section \<open>The relay connection of the client (src/client/network_manager.py)\<close>

text \<open>
  \<^verbatim>\<open>bytes.fromhex\<close>, as CPython implements it: ASCII whitespace is skipped where a pair of
  digits may start, then two hexadecimal digits make one byte; anything else, and a digit
  with no second digit, raises \<^verbatim>\<open>ValueError\<close> (\<open>None\<close> here).
\<close>

definition hex_value :: "char \<Rightarrow> nat option" where
  "hex_value c =
     (let n = (of_char c :: nat)
      in if 48 \<le> n \<and> n \<le> 57 then Some (n - 48)
         else if 97 \<le> n \<and> n \<le> 102 then Some (n - 87)
         else if 65 \<le> n \<and> n \<le> 70 then Some (n - 55)
         else None)"

definition is_space :: "char \<Rightarrow> bool" where
  "is_space c \<longleftrightarrow> (of_char c :: nat) \<in> {9, 10, 11, 12, 13, 32}"

fun bytes_fromhex :: "string \<Rightarrow> byte list option" where
  "bytes_fromhex [] = Some []"
| "bytes_fromhex [c] = (if is_space c then Some [] else None)"
| "bytes_fromhex (c # d # cs) =
     (if is_space c then bytes_fromhex (d # cs)
      else
        (case hex_value c of
           None \<Rightarrow> None
         | Some hi \<Rightarrow>
             (case hex_value d of
                None \<Rightarrow> None
              | Some lo \<Rightarrow>
                  (case bytes_fromhex cs of
                     None \<Rightarrow> None
                   | Some bs \<Rightarrow> Some (word_of_nat (16 * hi + lo) # bs)))))"

text \<open>
  The part of a \<^verbatim>\<open>NetworkManager\<close> that packet injection could change: \<open>nat_table\<close>,
  the dictionary created empty in \<^verbatim>\<open>__init__\<close> (line 19).
\<close>

record network_manager =
  nat_table :: "(string \<times> nat) \<rightharpoonup> (string \<times> nat)"

datatype direction = Inbound | Outbound

datatype py_exception = KeyError | TypeError | ValueError

text \<open>What the client does that can be seen from outside: packets injected, frames sent, errors logged.\<close>

datatype nm_action =
    Injected direction "byte list"
  | Sent json
  | LogInjectionError
  | LogReceiveError
  | LogSendError

text \<open>
  \<^verbatim>\<open>handle_incoming_packet\<close> (lines 76-131). Line 82 decodes the payload before the
  \<^verbatim>\<open>try\<close> of line 93, so its exceptions leave the function: \<^verbatim>\<open>KeyError\<close> without a
  \<open>payload\<close> key, \<^verbatim>\<open>TypeError\<close> when it is not a string, \<^verbatim>\<open>ValueError\<close> when it is not
  hex. Inside the \<^verbatim>\<open>try\<close>, a response is injected inbound (\<open>inject_ok\<close> says whether the
  driver accepts the packet; a failure is logged), and the branch of a request is
  \<^verbatim>\<open>pass\<close>.
\<close>

definition handle_incoming_packet ::
  "(byte list \<Rightarrow> bool) \<Rightarrow> network_manager \<Rightarrow> (string \<times> json) list
     \<Rightarrow> py_exception + (network_manager \<times> nm_action list)"
where
  "handle_incoming_packet inject_ok nm data =
     (case map_of data ''payload'' of
        None \<Rightarrow> Inl KeyError
      | Some (JStr hex) \<Rightarrow>
          (case bytes_fromhex hex of
             None \<Rightarrow> Inl ValueError
           | Some packet_bytes \<Rightarrow>
               (let mode = dict_get data ''mode'' in
                if mode = JStr ''response'' then
                  (if inject_ok packet_bytes then Inr (nm, [Injected Inbound packet_bytes])
                   else Inr (nm, [LogInjectionError]))
                else if mode = JStr ''request'' then Inr (nm, [])
                else Inr (nm, [])))
      | Some other \<Rightarrow> Inl TypeError)"

text \<open>
  What the connection yields to \<^verbatim>\<open>async for message in self.ws\<close>: a text frame, the end
  of the iteration after a clean close, or \<^verbatim>\<open>ConnectionClosedError\<close>.
\<close>

datatype ws_item = Frame frame | ClosedOK | ClosedError

text \<open>
  \<^verbatim>\<open>receive_handler\<close> (lines 54-64). Its \<^verbatim>\<open>try\<close> encloses the whole loop: any exception
  (from \<^verbatim>\<open>json.loads\<close>, from \<^verbatim>\<open>data.get\<close> on a value that is not a dict, from
  \<^verbatim>\<open>handle_incoming_packet\<close>, from the connection) is logged and the coroutine returns.
  The result says what was done and whether the coroutine has returned; it has not when
  the frames seen so far are all processed and it waits for the next.
\<close>

fun receive_handler ::
  "(byte list \<Rightarrow> bool) \<Rightarrow> network_manager \<Rightarrow> ws_item list
     \<Rightarrow> network_manager \<times> nm_action list \<times> bool"
where
  "receive_handler inject_ok nm [] = (nm, [], False)"
| "receive_handler inject_ok nm (ClosedOK # rest) = (nm, [], True)"
| "receive_handler inject_ok nm (ClosedError # rest) = (nm, [LogReceiveError], True)"
| "receive_handler inject_ok nm (Frame BadJson # rest) = (nm, [LogReceiveError], True)"
| "receive_handler inject_ok nm (Frame (Parsed (JObj data)) # rest) =
     (if dict_get data ''type'' = JStr ''packet'' then
        (case handle_incoming_packet inject_ok nm data of
           Inl e \<Rightarrow> (nm, [LogReceiveError], True)
         | Inr (nm', acts) \<Rightarrow>
             (case receive_handler inject_ok nm' rest of
                (nm'', acts', returned) \<Rightarrow> (nm'', acts @ acts', returned)))
      else receive_handler inject_ok nm rest)"
| "receive_handler inject_ok nm (Frame (Parsed other) # rest) = (nm, [LogReceiveError], True)"

text \<open>
  \<^verbatim>\<open>send_handler\<close> (lines 66-74), one turn of its loop at a time: either it reads
  \<^verbatim>\<open>self.running\<close> as false and returns, or it takes an envelope from the queue and sends
  it, logging a failed send. It returns in no other way.
\<close>

datatype send_turn = Stopped | Dequeued json bool

fun send_handler :: "send_turn list \<Rightarrow> nm_action list \<times> bool" where
  "send_handler [] = ([], False)"
| "send_handler (Stopped # rest) = ([], True)"
| "send_handler (Dequeued m ok # rest) =
     (case send_handler rest of
        (acts, returned) \<Rightarrow> ((if ok then Sent m else LogSendError) # acts, returned))"

text \<open>
  One turn of the loop of \<^verbatim>\<open>connect_to_server\<close> (lines 22-52) ends in one of these ways:
  the connection cannot be made, the authentication frame cannot be sent, no reply
  arrives, or the session is set up and \<^verbatim>\<open>asyncio.gather\<close> runs the two handlers on what
  the connection and the queue then deliver.
\<close>

datatype attempt =
    ConnectFails
  | AuthSendFails
  | AuthRecvFails
  | Established "ws_item list" "send_turn list"

record client_config =
  server_url :: string
  client_token :: json
  client_name :: json
  has_status_callback :: bool

datatype conn_action =
    Status bool
  | Connect string
  | SendAuth json
  | LogAuthResponse
  | LogConnectionError
  | Sleep nat
  | Gather "nm_action list" "nm_action list"

text \<open>
  How an observation of the loop ends: the loop has returned (\<^verbatim>\<open>self.running\<close> was
  false), it is suspended in \<^verbatim>\<open>asyncio.gather\<close> because a handler has not returned, or
  the observation stops before the next turn.
\<close>

datatype loop_end = Returned | AwaitingGather | NextTurn

definition status :: "client_config \<Rightarrow> bool \<Rightarrow> conn_action list" where
  "status cfg connected = (if has_status_callback cfg then [Status connected] else [])"

definition auth_msg :: "client_config \<Rightarrow> json" where
  "auth_msg cfg = JObj [(''token'', client_token cfg), (''name'', client_name cfg)]"

text \<open>The \<^verbatim>\<open>except\<close> block, lines 48-52.\<close>

definition on_connection_error :: "client_config \<Rightarrow> conn_action list" where
  "on_connection_error cfg = [LogConnectionError] @ status cfg False @ [Sleep 5]"

text \<open>
  \<^verbatim>\<open>connect_to_server\<close>. Each turn is given with the value of \<^verbatim>\<open>self.running\<close> read at
  the head of the loop. \<^verbatim>\<open>asyncio.gather\<close> returns when both handlers have returned;
  neither raises, so only then does the loop go on.
\<close>

fun connect_to_server ::
  "client_config \<Rightarrow> (byte list \<Rightarrow> bool) \<Rightarrow> network_manager \<Rightarrow> (bool \<times> attempt) list
     \<Rightarrow> conn_action list \<times> loop_end \<times> network_manager"
where
  "connect_to_server cfg inject_ok nm [] = ([], NextTurn, nm)"
| "connect_to_server cfg inject_ok nm ((running, a) # rest) =
     (if \<not> running then ([], Returned, nm)
      else
        (case a of
           ConnectFails \<Rightarrow>
             (case connect_to_server cfg inject_ok nm rest of
                (acts, e, nm') \<Rightarrow>
                  (status cfg False @ [Connect (server_url cfg)] @ on_connection_error cfg @ acts,
                   e, nm'))
         | AuthSendFails \<Rightarrow>
             (case connect_to_server cfg inject_ok nm rest of
                (acts, e, nm') \<Rightarrow>
                  (status cfg False @ [Connect (server_url cfg)] @ on_connection_error cfg @ acts,
                   e, nm'))
         | AuthRecvFails \<Rightarrow>
             (case connect_to_server cfg inject_ok nm rest of
                (acts, e, nm') \<Rightarrow>
                  (status cfg False @ [Connect (server_url cfg), SendAuth (auth_msg cfg)]
                     @ on_connection_error cfg @ acts,
                   e, nm'))
         | Established items turns \<Rightarrow>
             (case receive_handler inject_ok nm items of
                (nm1, received, receive_returned) \<Rightarrow>
                  (case send_handler turns of
                     (sent, send_returned) \<Rightarrow>
                       (let session =
                              status cfg False
                                @ [Connect (server_url cfg), SendAuth (auth_msg cfg), LogAuthResponse]
                                @ status cfg True @ [Gather received sent]
                        in if receive_returned \<and> send_returned then
                             (case connect_to_server cfg inject_ok nm1 rest of
                                (acts, e, nm') \<Rightarrow> (session @ acts, e, nm'))
                           else (session, AwaitingGather, nm1))))))"

text \<open>Frames and a configuration for the examples.\<close>

definition bad_hex_frame :: "(string \<times> json) list" where
  "bad_hex_frame =
     [(''target'', JStr ''alice''), (''type'', JStr ''packet''), (''mode'', JStr ''response''),
      (''payload'', JStr ''abc''), (''sender'', JStr ''bob'')]"

definition good_hex_frame :: "(string \<times> json) list" where
  "good_hex_frame =
     [(''target'', JStr ''alice''), (''type'', JStr ''packet''), (''mode'', JStr ''response''),
      (''payload'', JStr ''deadbeef''), (''sender'', JStr ''bob'')]"

definition request_frame :: "(string \<times> json) list" where
  "request_frame = dict_set ''sender'' (JStr ''alice'') deadbeef_envelope"

definition nm_init :: network_manager where
  "nm_init = \<lparr>nat_table = Map.empty\<rparr>"

definition alice_config :: client_config where
  "alice_config = \<lparr>server_url = ''wss://relay.example/ws'', client_token = JStr ''T1'',
     client_name = JStr ''alice'', has_status_callback = True\<rparr>"

section \<open>Facts about the server\<close>

lemma map_of_dict_set: "map_of (dict_set k v d) = (map_of d)(k \<mapsto> v)"
  by (induction d) (auto simp: fun_eq_iff)

lemma dict_get_dict_set:
  "dict_get (dict_set k v d) k' = (if k' = k then v else dict_get d k')"
  by (simp add: dict_get_def map_of_dict_set)

subsection \<open>Authentication\<close>

lemma handler_auth_mismatch:
  assumes "dict_get auth_data ''token'' = JStr tok"
      and "clients tok = Some expected"
      and "expected \<noteq> []"
      and "dict_get auth_data ''name'' \<noteq> JStr expected"
  shows "handler_auth clients w (RecvText (Parsed (JObj auth_data))) st =
           st\<lparr>alive := alive st - {w},
              closed_with := closed_with st @ [(w, 4002, ''Name mismatch'')],
              log := log st @ [TokenNameMismatch]\<rparr>"
  using assms by (auto simp: handler_auth_def ws_close_def logged_def)

lemma handler_auth_ok:
  assumes "dict_get auth_data ''token'' = JStr tok"
      and "clients tok = Some n"
      and "n \<noteq> []"
      and "dict_get auth_data ''name'' = JStr n"
      and "w \<in> alive st"
  shows "handler_auth clients w (RecvText (Parsed (JObj auth_data))) st =
           st\<lparr>connected_clients := (connected_clients st)(n \<mapsto> w),
              outbox := outbox st @ [(w, JObj [(''status'', JStr ''authenticated'')])],
              handlers := (handlers st)(w \<mapsto> n),
              log := log st @ [ClientConnected]\<rparr>"
  using assms by (simp add: handler_auth_def ws_send_def logged_def)

subsection \<open>The invariant of the registry\<close>

lemma names_ok_init: "names_ok clients server_init"
  by (simp add: names_ok_def server_init_def)

lemma names_ok_auth: "names_ok clients st \<Longrightarrow> names_ok clients (handler_auth clients w r st)"
  unfolding names_ok_def handler_auth_def
  by (auto simp: ws_close_def logged_def ws_send_def handler_finally_def Let_def
           split: recv.splits frame.splits json.splits option.splits if_splits
           elim!: clients_get.elims)

lemma names_ok_message: "names_ok clients st \<Longrightarrow> names_ok clients (handler_message n w f st)"
  unfolding names_ok_def handler_message_def
  by (auto simp: logged_def ws_send_def Let_def
           split: frame.splits json.splits option.splits if_splits)

lemma names_ok_step: "names_ok clients st \<Longrightarrow> names_ok clients (server_step clients ev st)"
proof (cases ev)
  case (Accept w r)
  assume "names_ok clients st"
  then show ?thesis using Accept by (simp add: names_ok_auth)
next
  case (Receive w f)
  assume "names_ok clients st"
  then show ?thesis using Receive by (simp add: names_ok_message split: option.splits)
next
  case (Closed w c)
  assume "names_ok clients st"
  then show ?thesis using Closed
    by (auto simp: names_ok_def handler_finally_def logged_def split: option.splits if_splits)
qed (auto simp: names_ok_def)

lemma names_ok_run: "names_ok clients (server_run clients evs)"
proof (induction evs rule: rev_induct)
  case Nil
  show ?case by (simp add: server_run_def names_ok_init)
next
  case (snoc ev evs)
  have "server_run clients (evs @ [ev]) = server_step clients ev (server_run clients evs)"
    by (simp add: server_run_def)
  with snoc show ?case by (simp add: names_ok_step)
qed

subsection \<open>Evaluating the scenarios\<close>

lemmas server_eval =
  server_run_def server_init_def two_clients_def alice_auth_def bob_auth_def
  handler_auth_def handler_message_def handler_finally_def dict_get_def ws_send_def
  ws_close_def logged_def error_msg_def Let_def

lemma alice_only_eq:
  "alice_only = \<lparr>connected_clients = [''alice'' \<mapsto> 1], alive = {1},
      outbox = [(1, JObj [(''status'', JStr ''authenticated'')])], closed_with = [],
      handlers = [1 \<mapsto> ''alice''], log = [ClientConnected]\<rparr>"
  by (simp add: alice_only_def server_run_def server_init_def two_clients_def alice_auth_def
        handler_auth_def dict_get_def ws_send_def logged_def Let_def)

lemma alice_bob_eq:
  "server_run two_clients alice_bob_events =
     \<lparr>connected_clients = [''alice'' \<mapsto> 1, ''bob'' \<mapsto> 2], alive = {1, 2},
      outbox = [(1, JObj [(''status'', JStr ''authenticated'')]),
                (2, JObj [(''status'', JStr ''authenticated'')])],
      closed_with = [], handlers = [1 \<mapsto> ''alice'', 2 \<mapsto> ''bob''],
      log = [ClientConnected, ClientConnected]\<rparr>"
  by (simp add: alice_bob_events_def server_eval insert_commute)

lemma alice_waiting_eq:
  "alice_waiting =
     \<lparr>connected_clients = [''alice'' \<mapsto> 1], alive = {1, 2, 3},
      outbox = [(1, JObj [(''status'', JStr ''authenticated'')])],
      closed_with = [], handlers = [1 \<mapsto> ''alice''],
      log = [ClientConnected]\<rparr>"
  by (simp add: alice_waiting_def server_eval insert_commute)


lemma stale_bob_eq:
  "server_run two_clients stale_bob_events =
     \<lparr>connected_clients = [''alice'' \<mapsto> 1, ''bob'' \<mapsto> 2], alive = {1},
      outbox = [(1, JObj [(''status'', JStr ''authenticated'')]),
                (2, JObj [(''status'', JStr ''authenticated'')])],
      closed_with = [], handlers = [1 \<mapsto> ''alice'', 2 \<mapsto> ''bob''],
      log = [ClientConnected, ClientConnected]\<rparr>"
  by (auto simp: stale_bob_events_def alice_bob_events_def server_eval insert_commute)

lemma replaced_bob_eq:
  "server_run two_clients replaced_bob_events =
     \<lparr>connected_clients = [''alice'' \<mapsto> 1], alive = {1, 3},
      outbox = [(1, JObj [(''status'', JStr ''authenticated'')]),
                (2, JObj [(''status'', JStr ''authenticated'')]),
                (3, JObj [(''status'', JStr ''authenticated'')])],
      closed_with = [], handlers = [1 \<mapsto> ''alice'', 3 \<mapsto> ''bob''],
      log = [ClientConnected, ClientConnected, ClientConnected, ClientDisconnected]\<rparr>"
  by (auto simp: replaced_bob_events_def server_eval insert_commute fun_eq_iff)

subsection \<open>Name mismatch at authentication\<close>

text \<open>
  C5, as stated, fails on one kind of configuration: a token bound to the empty name. The
  test \<^verbatim>\<open>if not expected_name\<close> is true for the empty string as it is for \<^verbatim>\<open>None\<close>, so
  the connection is closed with 4001 (invalid token) although the token is bound and the
  claimed name differs from the bound one.
\<close>

theorem name_mismatch_counterexample:
  "[''T'' \<mapsto> ''''] ''T'' = Some '''' \<and> JStr '''' \<noteq> JStr ''B''
   \<and> closed_with (server_step [''T'' \<mapsto> '''']
        (Accept 1 (RecvText (Parsed (JObj [(''token'', JStr ''T''), (''name'', JStr ''B'')]))))
        server_init) = [(1, 4001, ''Invalid token'')]"
  by (simp add: handler_auth_def dict_get_def ws_close_def logged_def server_init_def)


text \<open>
  C5 (amended): when the first frame of a connection carries a token that the configured
  map binds to a non-empty name different from the claimed name, the server closes the
  connection with code 4002 (name mismatch; the invalid-token code is 4001), sends
  nothing, and leaves the registry and the set of serving handlers as they were; a
  connection that had no handler before has none afterwards, so nothing that arrives on
  it later changes the server.
\<close>

theorem name_mismatch_rejected:
  assumes "dict_get auth_data ''token'' = JStr tok"
      and "clients tok = Some expected"
      and "expected \<noteq> []"
      and "dict_get auth_data ''name'' \<noteq> JStr expected"
      and "st' = server_step clients (Accept w (RecvText (Parsed (JObj auth_data)))) st"
  shows "closed_with st' = closed_with st @ [(w, 4002, ''Name mismatch'')]
       \<and> connected_clients st' = connected_clients st
       \<and> handlers st' = handlers st
       \<and> outbox st' = outbox st
       \<and> (handlers st w = None \<longrightarrow>
            (\<forall>f. server_step clients (Receive w f) st' = st')
          \<and> (\<forall>c. server_step clients (Closed w c) st' = st'))"
  using assms by (simp add: handler_auth_mismatch)

theorem name_mismatch_rejected_witness:
  "dict_get [(''token'', JStr ''T1''), (''name'', JStr ''bob'')] ''token'' = JStr ''T1''
   \<and> two_clients ''T1'' = Some ''alice''
   \<and> dict_get [(''token'', JStr ''T1''), (''name'', JStr ''bob'')] ''name'' \<noteq> JStr ''alice''
   \<and> closed_with (server_step two_clients
         (Accept 7 (RecvText (Parsed (JObj [(''token'', JStr ''T1''), (''name'', JStr ''bob'')]))))
         server_init) = [(7, 4002, ''Name mismatch'')]
   \<and> connected_clients (server_step two_clients
         (Accept 7 (RecvText (Parsed (JObj [(''token'', JStr ''T1''), (''name'', JStr ''bob'')]))))
         server_init) = Map.empty
   \<and> server_step two_clients (Receive 7 BadJson) (server_step two_clients
         (Accept 7 (RecvText (Parsed (JObj [(''token'', JStr ''T1''), (''name'', JStr ''bob'')]))))
         server_init) = server_step two_clients
         (Accept 7 (RecvText (Parsed (JObj [(''token'', JStr ''T1''), (''name'', JStr ''bob'')]))))
         server_init"
  using name_mismatch_rejected [of "[(''token'', JStr ''T1''), (''name'', JStr ''bob'')]" "''T1''"
       two_clients "''alice''" _ 7 server_init, OF _ _ _ _ refl]
  by (simp add: dict_get_def server_init_def two_clients_def)


subsection \<open>Routing\<close>

text \<open>
  C6, as stated, fails for a target whose session is gone but whose registry entry is not
  yet deleted: the transport of \<open>bob\<close> has failed and his handler has not yet run its
  \<^verbatim>\<open>finally\<close> block. The name is found in \<^verbatim>\<open>connected_clients\<close>, the forwarding \<^verbatim>\<open>send\<close>
  raises, lines 136-137 log the exception, and the sender gets no error envelope.
\<close>

theorem unknown_target_counterexample:
  "handlers (server_run two_clients stale_bob_events) 1 = Some ''alice''
   \<and> 1 \<in> alive (server_run two_clients stale_bob_events)
   \<and> dict_get deadbeef_envelope ''target'' = JStr ''bob''
   \<and> 2 \<notin> alive (server_run two_clients stale_bob_events)
   \<and> connected_clients (server_run two_clients stale_bob_events) ''bob'' = Some 2
   \<and> outbox (server_step two_clients (Receive 1 (Parsed (JObj deadbeef_envelope)))
               (server_run two_clients stale_bob_events))
       = outbox (server_run two_clients stale_bob_events)
   \<and> log (server_step two_clients (Receive 1 (Parsed (JObj deadbeef_envelope)))
               (server_run two_clients stale_bob_events))
       = log (server_run two_clients stale_bob_events) @ [ErrorProcessing]"
  by (simp add: stale_bob_eq deadbeef_envelope_def dict_get_def handler_message_def
        ws_send_def logged_def)

text \<open>
  C6 (amended): when a session that has authenticated (its handler is in the message loop
  and its connection is open) sends an envelope whose target is absent or is a string
  that names no session registered in \<^verbatim>\<open>connected_clients\<close>, the server sends exactly one
  frame, the error envelope with keys \<open>type\<close> and \<open>message\<close> naming the target, to the
  sender; nothing goes to any other connection, and the registry, the open connections
  and the handlers are unchanged.
\<close>

theorem unknown_target_error:
  assumes "handlers st w = Some client_id"
      and "w \<in> alive st"
      and "dict_get data ''target'' = target"
      and "target = JNull \<or> (\<exists>t. target = JStr t \<and> connected_clients st t = None)"
  shows "server_step clients (Receive w (Parsed (JObj data))) st =
           st\<lparr>outbox := outbox st @
                 [(w, JObj [(''type'', JStr ''error''),
                            (''message'', JStr (''Target '' @ py_str target @ '' not found''))])],
              log := log st @ [UnknownTarget]\<rparr>"
  using assms by (auto simp: handler_message_def ws_send_def logged_def error_msg_def)

theorem unknown_target_error_witness:
  "handlers alice_only 1 = Some ''alice'' \<and> 1 \<in> alive alice_only
   \<and> connected_clients alice_only ''X'' = None
   \<and> outbox (server_step two_clients
         (Receive 1 (Parsed (JObj [(''target'', JStr ''X''), (''type'', JStr ''packet'')]))) alice_only)
       = [(1, JObj [(''status'', JStr ''authenticated'')]),
          (1, JObj [(''type'', JStr ''error''), (''message'', JStr ''Target X not found'')])]
   \<and> alive (server_step two_clients
         (Receive 1 (Parsed (JObj [(''target'', JStr ''X''), (''type'', JStr ''packet'')]))) alice_only)
       = {1}"
  using unknown_target_error [of alice_only 1 "''alice''"
          "[(''target'', JStr ''X''), (''type'', JStr ''packet'')]" "JStr ''X''" two_clients]
  by (simp add: alice_only_eq dict_get_def)


text \<open>
  C7, as stated, fails for a target whose session is connected and authenticated but no
  longer registered: after a second connection has authenticated as \<open>bob\<close> and the first
  has ended, the \<^verbatim>\<open>finally\<close> block of the first has deleted the entry of the name. The
  envelope is not forwarded to the connection that is still open; the sender gets the
  error envelope.
\<close>

theorem forward_counterexample:
  "handlers (server_run two_clients replaced_bob_events) 1 = Some ''alice''
   \<and> dict_get deadbeef_envelope ''target'' = JStr ''bob''
   \<and> handlers (server_run two_clients replaced_bob_events) 3 = Some ''bob''
   \<and> 3 \<in> alive (server_run two_clients replaced_bob_events)
   \<and> connected_clients (server_run two_clients replaced_bob_events) ''bob'' = None
   \<and> outbox (server_step two_clients (Receive 1 (Parsed (JObj deadbeef_envelope)))
               (server_run two_clients replaced_bob_events))
       = outbox (server_run two_clients replaced_bob_events)
           @ [(1, JObj [(''type'', JStr ''error''), (''message'', JStr ''Target bob not found'')])]"
  by (simp add: replaced_bob_eq deadbeef_envelope_def dict_get_def handler_message_def
        ws_send_def logged_def error_msg_def)

text \<open>
  C7 (amended): in any state the server can reach, when an authenticated session sends an
  envelope whose target names a session that is registered in \<^verbatim>\<open>connected_clients\<close> and
  whose connection is open, the server sends to that connection the envelope with
  \<open>sender\<close> set to the sender's \<^verbatim>\<open>client_id\<close>: every other key keeps its value, a
  \<open>sender\<close> supplied by the client is overwritten, and \<^verbatim>\<open>client_id\<close> is the name the
  configuration binds to the token the sender presented.
\<close>

theorem forward_attaches_sender:
  assumes "st = server_run clients evs"
      and "handlers st w = Some client_id"
      and "dict_get data ''target'' = JStr t"
      and "connected_clients st t = Some target_ws"
      and "target_ws \<in> alive st"
  shows "server_step clients (Receive w (Parsed (JObj data))) st =
           st\<lparr>outbox := outbox st @ [(target_ws, JObj (dict_set ''sender'' (JStr client_id) data))],
              log := log st @ [RelayedMessage]\<rparr>
       \<and> map_of (dict_set ''sender'' (JStr client_id) data) = (map_of data)(''sender'' \<mapsto> JStr client_id)
       \<and> (\<exists>tok. clients tok = Some client_id)"
proof -
  have ok: "names_ok clients st" using assms(1) by (simp add: names_ok_run)
  with assms(4) have "t \<noteq> []" by (auto simp: names_ok_def)
  moreover from ok assms(2) have "\<exists>tok. clients tok = Some client_id" by (auto simp: names_ok_def)
  ultimately show ?thesis using assms
    by (simp add: handler_message_def ws_send_def logged_def map_of_dict_set)
qed


theorem forward_attaches_sender_witness:
  "handlers (server_run two_clients alice_bob_events) 1 = Some ''alice''
   \<and> dict_get deadbeef_envelope ''target'' = JStr ''bob''
   \<and> connected_clients (server_run two_clients alice_bob_events) ''bob'' = Some 2
   \<and> 2 \<in> alive (server_run two_clients alice_bob_events)
   \<and> outbox (server_step two_clients (Receive 1 (Parsed (JObj deadbeef_envelope)))
               (server_run two_clients alice_bob_events))
       = [(1, JObj [(''status'', JStr ''authenticated'')]),
          (2, JObj [(''status'', JStr ''authenticated'')]),
          (2, JObj [(''target'', JStr ''bob''), (''type'', JStr ''packet''),
                    (''mode'', JStr ''request''), (''payload'', JStr ''deadbeef''),
                    (''sender'', JStr ''alice'')])]"
  using forward_attaches_sender [of "server_run two_clients alice_bob_events" two_clients
          alice_bob_events 1 "''alice''" deadbeef_envelope "''bob''" 2, OF refl]
  by (simp add: alice_bob_eq deadbeef_envelope_def dict_get_def)


subsection \<open>Two connections under one name\<close>

text \<open>
  C9: when a second connection authenticates under a name that is already registered, the
  registry entry is overwritten and the first connection is neither closed nor told; when
  the first connection then ends, its \<^verbatim>\<open>finally\<close> block deletes the entry of that name,
  which by then belongs to the second connection; the second connection stays open with
  its handler running, and an envelope targeted at the name is answered with the
  target-not-found error.
\<close>

theorem duplicate_name_cleanup:
  assumes tok: "dict_get auth_data ''token'' = JStr tok"
      and cl: "clients tok = Some n"
      and ne: "n \<noteq> []"
      and nm: "dict_get auth_data ''name'' = JStr n"
      and a1: "w1 \<in> alive st" and a2: "w2 \<in> alive st" and neq: "w1 \<noteq> w2"
      and d1: "st1 = server_step clients (Accept w1 (RecvText (Parsed (JObj auth_data)))) st"
      and d2: "st2 = server_step clients (Accept w2 (RecvText (Parsed (JObj auth_data)))) st1"
      and d3: "st3 = server_step clients (Closed w1 clean) st2"
      and hs: "handlers st3 w = Some sender" and aw: "w \<in> alive st3"
      and tg: "dict_get data ''target'' = JStr n"
  shows "connected_clients st1 n = Some w1
       \<and> connected_clients st2 n = Some w2
       \<and> closed_with st2 = closed_with st \<and> w1 \<in> alive st2 \<and> handlers st2 w1 = Some n
       \<and> connected_clients st3 n = None
       \<and> w2 \<in> alive st3 \<and> handlers st3 w2 = Some n
       \<and> server_step clients (Receive w (Parsed (JObj data))) st3 =
           st3\<lparr>outbox := outbox st3 @
                  [(w, JObj [(''type'', JStr ''error''),
                             (''message'', JStr (''Target '' @ n @ '' not found''))])],
               log := log st3 @ [UnknownTarget]\<rparr>"
proof -
  have s1: "st1 = st\<lparr>connected_clients := (connected_clients st)(n \<mapsto> w1),
              outbox := outbox st @ [(w1, JObj [(''status'', JStr ''authenticated'')])],
              handlers := (handlers st)(w1 \<mapsto> n),
              log := log st @ [ClientConnected]\<rparr>"
    unfolding d1 using handler_auth_ok [where clients = clients and st = st, OF tok cl ne nm a1] by simp
  have "w2 \<in> alive st1" using a2 by (simp add: s1)
  then have s2: "st2 = st1\<lparr>connected_clients := (connected_clients st1)(n \<mapsto> w2),
              outbox := outbox st1 @ [(w2, JObj [(''status'', JStr ''authenticated'')])],
              handlers := (handlers st1)(w2 \<mapsto> n),
              log := log st1 @ [ClientConnected]\<rparr>"
    unfolding d2 using handler_auth_ok [where clients = clients and st = st1 and w = w2, OF tok cl ne nm] by simp
  have p1: "connected_clients st1 n = Some w1" by (simp add: s1)
  have p2: "connected_clients st2 n = Some w2 \<and> closed_with st2 = closed_with st
            \<and> w1 \<in> alive st2 \<and> handlers st2 w1 = Some n \<and> handlers st2 w2 = Some n
            \<and> w2 \<in> alive st2"
    using a1 a2 neq by (simp add: s2 s1)
  have p3: "connected_clients st3 n = None \<and> w2 \<in> alive st3 \<and> handlers st3 w2 = Some n"
    unfolding d3 using p2 ne neq
    by (cases clean) (simp_all add: handler_finally_def logged_def)
  have p4: "server_step clients (Receive w (Parsed (JObj data))) st3 =
           st3\<lparr>outbox := outbox st3 @
                  [(w, JObj [(''type'', JStr ''error''),
                             (''message'', JStr (''Target '' @ n @ '' not found''))])],
               log := log st3 @ [UnknownTarget]\<rparr>"
    using ne hs aw tg p3
    by (simp add: handler_message_def ws_send_def logged_def error_msg_def)
  show ?thesis using p1 p2 p3 p4 by simp
qed


theorem duplicate_name_cleanup_witness:
  "dict_get bob_auth ''token'' = JStr ''T2'' \<and> two_clients ''T2'' = Some ''bob''
   \<and> dict_get bob_auth ''name'' = JStr ''bob''
   \<and> 2 \<in> alive alice_waiting \<and> 3 \<in> alive alice_waiting
   \<and> connected_clients
        (server_step two_clients (Closed 2 True)
          (server_step two_clients (Accept 3 (RecvText (Parsed (JObj bob_auth))))
            (server_step two_clients (Accept 2 (RecvText (Parsed (JObj bob_auth)))) alice_waiting)))
        ''bob'' = None
   \<and> 3 \<in> alive
        (server_step two_clients (Closed 2 True)
          (server_step two_clients (Accept 3 (RecvText (Parsed (JObj bob_auth))))
            (server_step two_clients (Accept 2 (RecvText (Parsed (JObj bob_auth)))) alice_waiting)))
   \<and> outbox
        (server_step two_clients (Receive 1 (Parsed (JObj deadbeef_envelope)))
          (server_step two_clients (Closed 2 True)
            (server_step two_clients (Accept 3 (RecvText (Parsed (JObj bob_auth))))
              (server_step two_clients (Accept 2 (RecvText (Parsed (JObj bob_auth)))) alice_waiting))))
       = [(1, JObj [(''status'', JStr ''authenticated'')]),
          (2, JObj [(''status'', JStr ''authenticated'')]),
          (3, JObj [(''status'', JStr ''authenticated'')]),
          (1, JObj [(''type'', JStr ''error''), (''message'', JStr ''Target bob not found'')])]"
  using duplicate_name_cleanup [of bob_auth "''T2''" two_clients "''bob''" 2 alice_waiting 3
          _ _ _ True 1 "''alice''" deadbeef_envelope, OF _ _ _ _ _ _ _ refl refl refl]
  by (simp add: alice_waiting_eq server_eval deadbeef_envelope_def)

section \<open>Facts about the capture loop\<close>

subsection \<open>Byte substrings\<close>

lemma starts_with_iff: "starts_with xs ys \<longleftrightarrow> (\<exists>ss. ys = xs @ ss)"
  by (induction xs ys rule: starts_with.induct) auto

lemma bytes_contains_iff: "bytes_contains needle hay \<longleftrightarrow> (\<exists>ps ss. hay = ps @ needle @ ss)"
proof (induction hay)
  case Nil
  then show ?case by auto
next
  case (Cons y ys)
  show ?case
  proof
    assume "bytes_contains needle (y # ys)"
    then consider "starts_with needle (y # ys)" | "bytes_contains needle ys" by auto
    then show "\<exists>ps ss. y # ys = ps @ needle @ ss"
    proof cases
      case 1
      then obtain ss where "y # ys = needle @ ss" by (auto simp: starts_with_iff)
      then have "y # ys = [] @ needle @ ss" by simp
      then show ?thesis by blast
    next
      case 2
      with Cons obtain ps ss where "ys = ps @ needle @ ss" by auto
      then have "y # ys = (y # ps) @ needle @ ss" by simp
      then show ?thesis by blast
    qed
  next
    assume "\<exists>ps ss. y # ys = ps @ needle @ ss"
    then obtain ps ss where e: "y # ys = ps @ needle @ ss" by auto
    show "bytes_contains needle (y # ys)"
    proof (cases ps)
      case Nil
      with e have "starts_with needle (y # ys)" by (auto simp: starts_with_iff)
      then show ?thesis by simp
    next
      case (Cons p ps')
      with e have "ys = ps' @ needle @ ss" by simp
      with Cons.IH show ?thesis by auto
    qed
  qed
qed

subsection \<open>One packet, and the loop\<close>

lemma flows_inv_init: "flows_inv diversion_init"
  by (simp add: flows_inv_def diversion_init_def)

lemma classify_cases:
  "classify kws st p = (d, st') \<Longrightarrow>
     st' = st \<or>
     (d = Divert \<and> st' = st\<lparr>diverted_flows := insert (flow_id p) (diverted_flows st),
                             diverted_ips := insert (dst_addr p) (diverted_ips st)\<rparr>)"
  by (auto simp: classify_def split: if_splits option.splits kw_result.splits)

lemma flows_inv_classify: "flows_inv st \<Longrightarrow> flows_inv (snd (classify kws st p))"
proof -
  assume inv: "flows_inv st"
  obtain d st' where c: "classify kws st p = (d, st')" by (cases "classify kws st p")
  from classify_cases [OF c] inv show ?thesis
    by (fastforce simp: c flows_inv_def flow_id_def)
qed

lemma ips_mono_classify: "diverted_ips st \<subseteq> diverted_ips (snd (classify kws st p))"
proof -
  obtain d st' where c: "classify kws st p = (d, st')" by (cases "classify kws st p")
  from classify_cases [OF c] show ?thesis by (auto simp: c)
qed

lemma capture_loop_Cons:
  "cap_running c \<Longrightarrow>
   capture_loop kws target st (c # cs) =
     ((fst (classify kws st (cap_packet c)),
       dispose target (cap_ready c) (cap_packet c) (fst (classify kws st (cap_packet c))))
        # fst (capture_loop kws target (snd (classify kws st (cap_packet c))) cs),
      snd (capture_loop kws target (snd (classify kws st (cap_packet c))) cs))"
  by (simp split: prod.splits)

lemma capture_loop_stop: "\<not> cap_running c \<Longrightarrow> capture_loop kws target st (c # cs) = ([], st)"
  by simp

lemma flows_inv_loop: "flows_inv st \<Longrightarrow> flows_inv (snd (capture_loop kws target st caps))"
proof (induction caps arbitrary: st)
  case Nil
  then show ?case by simp
next
  case (Cons c cs)
  show ?case
  proof (cases "cap_running c")
    case True
    then show ?thesis
      using Cons.IH [OF flows_inv_classify [OF Cons.prems]] by (simp only: capture_loop_Cons snd_conv)
  next
    case False
    then show ?thesis using Cons.prems by simp
  qed
qed

lemma ips_mono_loop: "diverted_ips st \<subseteq> diverted_ips (snd (capture_loop kws target st caps))"
proof (induction caps arbitrary: st)
  case Nil
  then show ?case by simp
next
  case (Cons c cs)
  show ?case
  proof (cases "cap_running c")
    case True
    have "diverted_ips st \<subseteq> diverted_ips (snd (classify kws st (cap_packet c)))"
      by (rule ips_mono_classify)
    also have "\<dots> \<subseteq> diverted_ips (snd (capture_loop kws target (snd (classify kws st (cap_packet c))) cs))"
      by (rule Cons.IH)
    finally show ?thesis using True by (simp only: capture_loop_Cons snd_conv)
  next
    case False
    then show ?thesis by simp
  qed
qed

lemma capture_loop_append:
  "list_all cap_running xs \<Longrightarrow>
   capture_loop kws target st (xs @ ys) =
     (fst (capture_loop kws target st xs)
        @ fst (capture_loop kws target (snd (capture_loop kws target st xs)) ys),
      snd (capture_loop kws target (snd (capture_loop kws target st xs)) ys))"
proof (induction xs arbitrary: st)
  case Nil
  then show ?case by simp
next
  case (Cons c cs)
  then have r: "cap_running c" and rs: "list_all cap_running cs" by simp_all
  show ?case
    unfolding append_Cons capture_loop_Cons [OF r] Cons.IH [OF rs] by simp
qed

lemma capture_loop_length:
  "list_all cap_running xs \<Longrightarrow> length (fst (capture_loop kws target st xs)) = length xs"
proof (induction xs arbitrary: st)
  case Nil
  then show ?case by simp
next
  case (Cons c cs)
  then have r: "cap_running c" and rs: "list_all cap_running cs" by simp_all
  show ?case unfolding capture_loop_Cons [OF r] using Cons.IH [OF rs] by simp
qed

lemma capture_loop_nth:
  assumes "list_all cap_running xs" and "cap_running c"
  shows "fst (capture_loop kws target st (xs @ c # ys)) ! length xs =
           (fst (classify kws (snd (capture_loop kws target st xs)) (cap_packet c)),
            dispose target (cap_ready c) (cap_packet c)
              (fst (classify kws (snd (capture_loop kws target st xs)) (cap_packet c))))"
  unfolding capture_loop_append [OF assms(1)] fst_conv capture_loop_Cons [OF assms(2)]
  using capture_loop_length [OF assms(1), of kws target st]
  by (simp add: nth_append)

lemma classify_marked:
  "kws \<noteq> [] \<Longrightarrow> dst_addr q \<in> diverted_ips st \<Longrightarrow> \<not> quic q \<Longrightarrow> classify kws st q = (Divert, st)"
  by (auto simp: classify_def quic_def)

text \<open>
  Two entries whose \<^verbatim>\<open>encode\<close> raises: a number, and the string of the lone surrogate
  U+D800.
\<close>

lemma py_encode_raises:
  "py_encode (JInt 123) = None"
  "py_encode (JStr [char_of (237 :: nat), char_of (160 :: nat), char_of (128 :: nat)]) = None"
  by simp_all

lemma keyword_loop_found:
  assumes "list_all (\<lambda>k. py_encode k \<noteq> None) before"
      and "py_encode kw = Some needle" and "bytes_contains needle bytes"
  shows "\<exists>k. keyword_loop (before @ kw # after) bytes = Found k"
  using assms by (induction before) auto

lemma classify_keyword:
  assumes "flows_inv st" and "kws = before @ kw # after"
      and "list_all (\<lambda>k. py_encode k \<noteq> None) before"
      and "py_encode kw = Some needle"
      and "payload p = Some bytes" and "bytes \<noteq> []"
      and "bytes_contains needle bytes" and "\<not> quic p"
  shows "fst (classify kws st p) = Divert
       \<and> dst_addr p \<in> diverted_ips (snd (classify kws st p))
       \<and> (flow_id p \<in> diverted_flows (snd (classify kws st p)) \<or> dst_addr p \<in> diverted_ips st)"
proof -
  from keyword_loop_found [OF assms(3,4,7)] assms(2)
  obtain k where f: "keyword_loop kws bytes = Found k" by auto
  from assms(2) have ne: "kws \<noteq> []" by auto
  show ?thesis
  proof (cases "flow_id p \<in> diverted_flows st")
    case True
    with assms(1) have "dst_addr p \<in> diverted_ips st"
      by (auto simp: flows_inv_def flow_id_def)
    with True ne assms(8) show ?thesis by (simp add: classify_def quic_def)
  next
    case False
    with ne f assms(5,6,8) show ?thesis by (simp add: classify_def quic_def)
  qed
qed

lemmas capture_eval =
  classify_def quic_def flow_id_def diversion_init_def cap_def encode_def
  tls_hello_def tls_hello_2_def tls_data_def quic_initial_def

subsection \<open>Keyword matches\<close>

text \<open>
  C3, as stated, fails in four places. The first packet of a second connection to an
  address that is already marked is diverted by the test of line 191, which adds nothing
  to \<^verbatim>\<open>diverted_flows\<close>: its flow tuple is never in that set. A later UDP packet to port
  443 of a marked address is dropped by lines 180-183, not diverted. An empty payload,
  which contains the empty keyword, is not inspected at all (\<^verbatim>\<open>if packet.payload\<close>). And
  when an entry of the keyword list that stands before the matching keyword is not a
  string, its \<^verbatim>\<open>encode\<close> raises, the \<^verbatim>\<open>except\<close> of line 207 swallows the exception, and
  the packet is passed although its payload contains a configured keyword.
\<close>

theorem keyword_match_counterexample:
  "map fst (fst (capture_loop [JStr ''example''] ''executor'' diversion_init
                   [cap tls_hello, cap tls_hello_2, cap quic_initial]))
     = [Divert, Divert, Drop]
   \<and> dst_addr quic_initial = dst_addr tls_hello
   \<and> flow_id tls_hello_2 \<notin> diverted_flows
         (snd (capture_loop [JStr ''example''] ''executor'' diversion_init
                 [cap tls_hello, cap tls_hello_2]))
   \<and> bytes_contains (encode '''') []
   \<and> classify [JStr ''''] diversion_init (tls_hello\<lparr>payload := Some []\<rparr>) = (Pass, diversion_init)
   \<and> payload tls_data = Some (encode ''data'')
   \<and> bytes_contains (encode ''data'') (encode ''data'')
   \<and> classify [JInt 123, JStr ''data''] diversion_init tls_data = (Pass, diversion_init)"
  by (simp add: capture_eval)

text \<open>
  C3 (amended): take a run of the loop from its start, and in it a packet that is not UDP to
  port 443 and whose non-empty payload contains, as a byte substring, the encoding of a
  configured keyword that the keyword loop reaches: every entry of the keyword list before
  it is a string that can be encoded. That packet is diverted, and afterwards its
  destination address is marked; its flow tuple is marked too unless the address was
  marked already. Every later packet of the run on that flow tuple or to that address is
  diverted, unless it is UDP to port 443, and whatever its payload is: the decision is
  taken with the sets alone and leaves them as they are.
\<close>

theorem keyword_match_diverts:
  assumes run: "list_all cap_running (pre @ c1 # mid @ [c2])"
      and kw: "kws = before @ kw # after"
      and enc: "list_all (\<lambda>k. py_encode k \<noteq> None) before" "py_encode kw = Some needle"
      and pl: "payload (cap_packet c1) = Some bytes" "bytes \<noteq> []"
      and hit: "bytes_contains needle bytes"
      and q1: "\<not> quic (cap_packet c1)"
      and same: "flow_id (cap_packet c2) = flow_id (cap_packet c1)
                 \<or> dst_addr (cap_packet c2) = dst_addr (cap_packet c1)"
      and q2: "\<not> quic (cap_packet c2)"
      and st0: "st0 = snd (capture_loop kws target diversion_init pre)"
      and st1: "st1 = snd (capture_loop kws target diversion_init (pre @ [c1]))"
      and st2: "st2 = snd (capture_loop kws target diversion_init (pre @ c1 # mid))"
      and tr: "trace = fst (capture_loop kws target diversion_init (pre @ c1 # mid @ c2 # post))"
  shows "fst (trace ! length pre) = Divert
       \<and> dst_addr (cap_packet c1) \<in> diverted_ips st1
       \<and> (flow_id (cap_packet c1) \<in> diverted_flows st1 \<or> dst_addr (cap_packet c1) \<in> diverted_ips st0)
       \<and> fst (trace ! (length pre + 1 + length mid)) = Divert
       \<and> (\<forall>x. classify kws st2 ((cap_packet c2)\<lparr>payload := x\<rparr>) = (Divert, st2))"
proof -
  from run have rpre: "list_all cap_running pre" and r1: "cap_running c1"
    and rmid: "list_all cap_running mid" and r2: "cap_running c2"
    by simp_all
  from kw have ne: "kws \<noteq> []" by auto
  have inv0: "flows_inv st0"
    unfolding st0 by (rule flows_inv_loop [OF flows_inv_init])
  note k = classify_keyword [OF inv0 kw enc pl hit q1]
  have s1: "st1 = snd (classify kws st0 (cap_packet c1))"
    unfolding st1 st0 capture_loop_append [OF rpre] using r1 by (simp split: prod.splits)
  have d1: "fst (trace ! length pre) = Divert"
    unfolding tr using capture_loop_nth [OF rpre r1, of kws target diversion_init "mid @ c2 # post"] k
    by (simp add: st0)
  have rp1: "list_all cap_running (pre @ [c1])" using rpre r1 by simp
  have s2: "st2 = snd (capture_loop kws target st1 mid)"
    unfolding st2 st1 using capture_loop_append [OF rp1, of kws target diversion_init mid] by simp
  have "dst_addr (cap_packet c1) \<in> diverted_ips st1" using k by (simp add: s1)
  moreover have "diverted_ips st1 \<subseteq> diverted_ips st2" unfolding s2 by (rule ips_mono_loop)
  ultimately have in2: "dst_addr (cap_packet c1) \<in> diverted_ips st2" by auto
  from same have "dst_addr (cap_packet c2) = dst_addr (cap_packet c1)"
    by (auto simp: flow_id_def)
  with in2 have m2: "dst_addr (cap_packet c2) \<in> diverted_ips st2" by simp
  have indep: "classify kws st2 ((cap_packet c2)\<lparr>payload := x\<rparr>) = (Divert, st2)" for x
    using ne m2 q2 by (intro classify_marked) (simp_all add: quic_def)
  from indep [of "payload (cap_packet c2)"]
  have c2: "classify kws st2 (cap_packet c2) = (Divert, st2)" by simp
  have rpm: "list_all cap_running (pre @ c1 # mid)" using rpre r1 rmid by simp
  have "fst (trace ! length (pre @ c1 # mid)) = Divert"
    unfolding tr
    using capture_loop_nth [OF rpm r2, of kws target diversion_init post] c2
    by (simp add: st2)
  then have d2: "fst (trace ! (length pre + 1 + length mid)) = Divert" by simp
  show ?thesis using d1 k s1 d2 indep by simp
qed

theorem keyword_match_diverts_witness:
  "list_all cap_running ([] @ cap tls_hello # [cap tls_hello_2] @ [cap tls_data])
   \<and> list_all (\<lambda>k. py_encode k \<noteq> None) [JStr ''intranet'']
   \<and> py_encode (JStr ''example'') = Some (encode ''example'')
   \<and> payload (cap_packet (cap tls_hello)) = Some (encode ''sni=example.com'')
   \<and> bytes_contains (encode ''example'') (encode ''sni=example.com'')
   \<and> \<not> quic (cap_packet (cap tls_hello)) \<and> \<not> quic (cap_packet (cap tls_data))
   \<and> flow_id (cap_packet (cap tls_data)) = flow_id (cap_packet (cap tls_hello))
   \<and> map fst (fst (capture_loop [JStr ''intranet'', JStr ''example'', JInt 123] ''executor''
                   diversion_init [cap tls_hello, cap tls_hello_2, cap tls_data]))
       = [Divert, Divert, Divert]
   \<and> fst (classify [JStr ''intranet'', JStr ''example'', JInt 123]
            (snd (capture_loop [JStr ''intranet'', JStr ''example'', JInt 123] ''executor''
                   diversion_init [cap tls_hello, cap tls_hello_2]))
            (tls_data\<lparr>payload := None\<rparr>)) = Divert"
  using keyword_match_diverts [of "[]" "cap tls_hello" "[cap tls_hello_2]" "cap tls_data"
          "[JStr ''intranet'', JStr ''example'', JInt 123]" "[JStr ''intranet'']" "JStr ''example''"
          "[JInt 123]" "encode ''example''" "encode ''sni=example.com''" _ "''executor''" _ _ _ "[]",
          OF _ _ _ _ _ _ _ _ _ _ refl refl refl refl]
  by (simp add: capture_eval)

subsection \<open>QUIC\<close>

text \<open>
  C4: a captured UDP packet with destination port 443 is dropped, whatever the keywords
  (none included) and whatever the two sets hold: the decision is \<open>Drop\<close>, the sets are
  unchanged, and the loop neither queues the packet for the relay nor re-injects it
  before it goes on to the next packet.
\<close>

theorem udp_443_dropped:
  assumes "proto (cap_packet c) = UDP" and "dst_port (cap_packet c) = Some 443"
      and "cap_running c"
  shows "classify kws st (cap_packet c) = (Drop, st)
       \<and> capture_loop kws target st (c # cs) =
           ((Drop, []) # fst (capture_loop kws target st cs),
            snd (capture_loop kws target st cs))"
  using assms by (simp add: classify_def split: prod.splits)

theorem udp_443_dropped_witness:
  "proto (cap_packet (cap quic_initial)) = UDP
   \<and> dst_port (cap_packet (cap quic_initial)) = Some 443
   \<and> cap_running (cap quic_initial)
   \<and> classify [JStr ''quic'']
        \<lparr>diverted_flows = {flow_id quic_initial}, diverted_ips = {dst_addr quic_initial}\<rparr>
        quic_initial
       = (Drop, \<lparr>diverted_flows = {flow_id quic_initial}, diverted_ips = {dst_addr quic_initial}\<rparr>)
   \<and> fst (capture_loop [] ''executor'' diversion_init [cap quic_initial, cap tls_data])
       = [(Drop, []), (Divert, [Queued (envelope ''executor'' tls_data)])]"
  using udp_443_dropped [of "cap quic_initial" "[JStr ''quic'']"
          "\<lparr>diverted_flows = {flow_id quic_initial}, diverted_ips = {dst_addr quic_initial}\<rparr>"]
        udp_443_dropped [of "cap quic_initial" "[]" diversion_init "''executor''" "[cap tls_data]"]
  by (simp add: capture_eval)

subsection \<open>Rules after the first\<close>

lemma raw_hex_examples:
  "bytes_hex [115, 110, 105, 61, 101, 120, 97, 109, 112, 108, 101, 46, 99, 111, 109]
     = ''736e693d6578616d706c652e636f6d''"
  "bytes_hex [100, 97, 116, 97] = ''64617461''"
  by code_simp+

text \<open>
  C10: with more than one rule configured, the loop runs as it does with the first rule
  alone, whatever the other rules are. The driver is opened with the filter expression
  of the first rule; the packets are classified with the keywords of the first rule, its
  \<open>domain_keywords\<close> followed by its \<open>domain_keyword\<close> when that is set; and each packet
  is dropped, re-injected, or queued in an envelope whose \<open>target\<close> is the target client
  of the first rule and whose \<open>payload\<close> is the packet's raw bytes in hex.
\<close>

theorem only_first_rule:
  "run_windivert (r # r' # others) driver_ok caps = run_windivert [r] driver_ok caps
   \<and> run_windivert (r # others) False caps = OpenFailed (windivert_filter r)
   \<and> run_windivert (r # others) True caps =
       Captured (windivert_filter r)
         (fst (capture_loop
                 (domain_keywords r @ (if py_truthy (domain_keyword r) then [domain_keyword r] else []))
                 (target_client r) diversion_init caps))
   \<and> (cap_running c \<longrightarrow>
        hd (fst (capture_loop kws target st (c # cs))) =
          (fst (classify kws st (cap_packet c)),
           (case fst (classify kws st (cap_packet c)) of
              Drop \<Rightarrow> []
            | Pass \<Rightarrow> [Reinjected (cap_packet c)]
            | Divert \<Rightarrow>
                if cap_ready c
                then [Queued (JObj [(''target'', JStr target), (''type'', JStr ''packet''),
                                    (''mode'', JStr ''request''),
                                    (''payload'', JStr (bytes_hex (raw (cap_packet c))))])]
                else [NotReady])))"
proof -
  have "dispose target ready p d =
          (case d of
             Drop \<Rightarrow> []
           | Pass \<Rightarrow> [Reinjected p]
           | Divert \<Rightarrow>
               if ready
               then [Queued (JObj [(''target'', JStr target), (''type'', JStr ''packet''),
                                   (''mode'', JStr ''request''),
                                   (''payload'', JStr (bytes_hex (raw p)))])]
               else [NotReady])" for ready p d
    by (cases d) (simp_all add: envelope_def)
  then show ?thesis
    by (simp add: run_windivert_def rule_keywords_def split: prod.splits)
qed

theorem only_first_rule_witness:
  "run_windivert [rule_a, rule_b] True [cap tls_data, cap tls_hello]
     = run_windivert [rule_a] True [cap tls_data, cap tls_hello]
   \<and> run_windivert [rule_a, rule_b] True [cap tls_data, cap tls_hello]
     = Captured ''outbound and tcp.DstPort == 443''
         [(Pass, [Reinjected tls_data]),
          (Divert, [Queued (JObj [(''target'', JStr ''executor''), (''type'', JStr ''packet''),
                                  (''mode'', JStr ''request''),
                                  (''payload'', JStr ''736e693d6578616d706c652e636f6d'')])])]
   \<and> run_windivert [rule_b, rule_a] True [cap tls_data, cap tls_hello]
     = Captured ''outbound and tcp.DstPort == 80''
         [(Divert, [Queued (JObj [(''target'', JStr ''other''), (''type'', JStr ''packet''),
                                  (''mode'', JStr ''request''), (''payload'', JStr ''64617461'')])]),
          (Divert, [Queued (JObj [(''target'', JStr ''other''), (''type'', JStr ''packet''),
                                  (''mode'', JStr ''request''),
                                  (''payload'', JStr ''736e693d6578616d706c652e636f6d'')])])]"
  using only_first_rule [of rule_a rule_b "[]" True "[cap tls_data, cap tls_hello]"
          "cap tls_data" "rule_keywords rule_a" "''executor''" diversion_init "[cap tls_hello]"]
        only_first_rule [of rule_b rule_a "[]" True "[cap tls_data, cap tls_hello]"]
  by (simp add: run_windivert_def rule_a_def rule_b_def rule_keywords_def capture_eval
        envelope_def raw_hex_examples)

section \<open>Facts about the relay connection of the client\<close>

lemmas hex_eval = hex_value_def is_space_def

lemma deadbeef_bytes: "bytes_fromhex ''deadbeef'' = Some [0xde, 0xad, 0xbe, 0xef]"
  by (simp add: hex_eval)

text \<open>Decoding what \<^verbatim>\<open>hex()\<close> wrote gives the bytes back.\<close>

lemma hex_digit_value: "n < 16 \<Longrightarrow> hex_value (hex_digit n) = Some n \<and> \<not> is_space (hex_digit n)"
  by (auto simp: hex_value_def hex_digit_def is_space_def Let_def)

lemma bytes_fromhex_pair:
  assumes "hi < 16" and "lo < 16"
  shows "bytes_fromhex (hex_digit hi # hex_digit lo # cs) =
           (case bytes_fromhex cs of None \<Rightarrow> None | Some bs \<Rightarrow> Some (word_of_nat (16 * hi + lo) # bs))"
  using hex_digit_value [OF assms(1)] hex_digit_value [OF assms(2)] by simp

lemma hex_roundtrip: "bytes_fromhex (bytes_hex bs) = Some bs"
proof (induction bs)
  case Nil
  then show ?case by (simp add: bytes_hex_def)
next
  case (Cons b bs)
  have lt: "unat b < 256" using unsigned_less [of b, where ?'a = nat] by simp
  then have hi: "unat b div 16 < 16" and lo: "unat b mod 16 < 16" by simp_all
  have split: "bytes_hex (b # bs) = hex_digit (unat b div 16) # hex_digit (unat b mod 16) # bytes_hex bs"
    by (simp add: bytes_hex_def)
  have "word_of_nat (16 * (unat b div 16) + unat b mod 16) = b" by simp
  then show ?case
    unfolding split bytes_fromhex_pair [OF hi lo] using Cons.IH by simp
qed

lemma handle_request:
  assumes "map_of data ''payload'' = Some (JStr hex)" and "bytes_fromhex hex = Some bs"
      and "dict_get data ''mode'' = JStr ''request''"
  shows "handle_incoming_packet inject_ok nm data = Inr (nm, [])"
  using assms by (simp add: handle_incoming_packet_def)

lemma handle_response:
  assumes "map_of data ''payload'' = Some (JStr hex)" and "bytes_fromhex hex = Some bs"
      and "dict_get data ''mode'' = JStr ''response''" and "inject_ok bs"
  shows "handle_incoming_packet inject_ok nm data = Inr (nm, [Injected Inbound bs])"
  using assms by (simp add: handle_incoming_packet_def)

lemma handle_bad_hex:
  assumes "map_of data ''payload'' = Some (JStr hex)" and "bytes_fromhex hex = None"
  shows "handle_incoming_packet inject_ok nm data = Inl ValueError"
  using assms by (simp add: handle_incoming_packet_def)

lemma receive_bad_hex:
  assumes "dict_get data ''type'' = JStr ''packet''"
      and "map_of data ''payload'' = Some (JStr hex)" and "bytes_fromhex hex = None"
  shows "receive_handler inject_ok nm (Frame (Parsed (JObj data)) # rest) = (nm, [LogReceiveError], True)"
  using assms by (simp add: handle_bad_hex)

subsection \<open>Requests on the Executor\<close>

text \<open>
  C1 does not hold of the code: the branch of \<^verbatim>\<open>mode == 'request'\<close> (lines 115-128) is
  \<^verbatim>\<open>pass\<close>. For the request envelope of the end-to-end scenario, as the server forwards it,
  the handler returns without injecting anything and with \<open>nat_table\<close> as it was, whatever
  the driver would accept.
\<close>

theorem request_not_injected:
  "handle_incoming_packet inject_ok nm request_frame = Inr (nm, [])
   \<and> receive_handler inject_ok nm_init [Frame (Parsed (JObj request_frame))] = (nm_init, [], False)"
  by (simp add: handle_incoming_packet_def request_frame_def deadbeef_envelope_def dict_get_def
        hex_eval)

subsection \<open>Malformed hex\<close>

text \<open>
  C2 does not hold of the code: a payload that is not hex raises \<^verbatim>\<open>ValueError\<close> at line 82,
  outside the \<^verbatim>\<open>try\<close> of \<^verbatim>\<open>handle_incoming_packet\<close>, and the \<^verbatim>\<open>try\<close> of
  \<^verbatim>\<open>receive_handler\<close> encloses its whole loop. The error is logged and the receive loop
  ends: the well-formed frame that follows, which alone would be injected, is never
  processed.
\<close>

theorem bad_hex_ends_receive_loop:
  "receive_handler (\<lambda>bs. True) nm_init
      [Frame (Parsed (JObj bad_hex_frame)), Frame (Parsed (JObj good_hex_frame))]
     = (nm_init, [LogReceiveError], True)
   \<and> receive_handler (\<lambda>bs. True) nm_init [Frame (Parsed (JObj good_hex_frame))]
     = (nm_init, [Injected Inbound [0xde, 0xad, 0xbe, 0xef]], False)"
  by (simp add: handle_incoming_packet_def bad_hex_frame_def good_hex_frame_def dict_get_def
        hex_eval)

subsection \<open>Reconnecting\<close>

lemma send_handler_running:
  "Stopped \<notin> set turns \<Longrightarrow> snd (send_handler turns) = False"
proof (induction turns)
  case Nil
  then show ?case by simp
next
  case (Cons t ts)
  then show ?case by (cases t) (auto split: prod.splits)
qed

lemma gather_never_returns:
  assumes "Stopped \<notin> set turns"
  shows "fst (snd (connect_to_server cfg inject_ok nm ((True, Established items turns) # rest)))
           = AwaitingGather"
proof -
  obtain sent r where s: "send_handler turns = (sent, r)" by (cases "send_handler turns")
  with send_handler_running [OF assms] have "r = False" by simp
  with s show ?thesis by (simp add: Let_def split: prod.splits)
qed

lemma connect_failure_backoff:
  "fst (connect_to_server cfg inject_ok nm ((True, ConnectFails) # rest)) =
     status cfg False @ [Connect (server_url cfg), LogConnectionError] @ status cfg False @ [Sleep 5]
       @ fst (connect_to_server cfg inject_ok nm rest)"
  by (simp add: on_connection_error_def split: prod.splits)

text \<open>
  C8 does not hold of the code for an active connection. When the connection fails after
  the handshake, \<^verbatim>\<open>receive_handler\<close> logs the error and returns, \<^verbatim>\<open>send_handler\<close> keeps
  waiting for the queue, and \<^verbatim>\<open>asyncio.gather\<close> does not return: the status callback is not
  called with \<open>False\<close>, nothing sleeps and no new connection is attempted. A failed
  connection attempt, in contrast, gives \<open>Status False\<close>, then \<open>Sleep 5\<close>, then the next
  attempt, every time.
\<close>

theorem receive_error_no_reconnect:
  "connect_to_server alice_config (\<lambda>bs. True) nm_init
      [(True, Established [ClosedError] []), (True, ConnectFails)]
     = ([Status False, Connect ''wss://relay.example/ws'',
         SendAuth (JObj [(''token'', JStr ''T1''), (''name'', JStr ''alice'')]), LogAuthResponse,
         Status True, Gather [LogReceiveError] []],
        AwaitingGather, nm_init)
   \<and> connect_to_server alice_config (\<lambda>bs. True) nm_init
      [(True, ConnectFails), (True, ConnectFails)]
     = ([Status False, Connect ''wss://relay.example/ws'', LogConnectionError, Status False, Sleep 5,
         Status False, Connect ''wss://relay.example/ws'', LogConnectionError, Status False, Sleep 5],
        NextTurn, nm_init)"
  by (simp add: alice_config_def status_def auth_msg_def on_connection_error_def)

end
